theory Spec2Isabelle
  imports Complex_Main "HOL-Library.Word" "HOL-Library.Log_Nat" "HOL-Library.AList"
begin

section \<open>JavaScript values used by the survey wizard\<close>

text \<open>
  The wizard of \<^verbatim>\<open>src/src/surveyapp.tsx\<close> keeps its answers in a
  \<^verbatim>\<open>Record<string, any>\<close>. The values that reach it are strings, numbers and
  arrays of strings; \<^verbatim>\<open>undefined\<close>, \<^verbatim>\<open>null\<close> and booleans are kept because
  the code tests for them.

  A JavaScript string is a sequence of UTF-16 code units. A number is an IEEE 754 binary64
  value: the finite ones are embedded in the rationals (both zeros are the rational 0), the
  two infinities and NaN are constructors of their own.
\<close>

type_synonym jsstring = "16 word list"

definition lit :: "string \<Rightarrow> jsstring" where
  "lit s = map (\<lambda>c. of_nat (of_char c)) s"

datatype jsnum = Fin rat | PosInf | NegInf | NaN

datatype jsval =
    Undefined
  | Null
  | Bool bool
  | Num jsnum
  | Str jsstring
  | Arr "jsstring list"

section \<open>Binary64 arithmetic\<close>

text \<open>
  \<open>rne\<close> rounds a rational to the nearest integer, ties to the even one. \<open>ilog2 x\<close> is
  the binary exponent of a positive \<open>x\<close>, and \<open>fl\<close> rounds to 53 significant bits, the
  rounding every binary64 operation applies to its exact result. Subnormal numbers and
  overflow are outside the model: it is exact for magnitudes from \<open>2 powi (-1022)\<close> up to
  \<open>2 ^ 1024\<close>, which covers every quotient of two array indices.
\<close>

definition rne :: "rat \<Rightarrow> int" where
  "rne x = (let f = \<lfloor>x\<rfloor>; r = x - of_int f in
     if r < 1/2 then f else if 1/2 < r then f + 1 else if even f then f else f + 1)"

definition ilog2 :: "rat \<Rightarrow> int" where
  "ilog2 x = (case quotient_of x of (a, b) \<Rightarrow>
     let d = bitlen a - bitlen b in if 2 powi d \<le> x then d else d - 1)"

definition fl :: "rat \<Rightarrow> rat" where
  "fl x = (if x = 0 then 0 else
     let u = 2 powi (ilog2 \<bar>x\<bar> - 52) in sgn x * (of_int (rne (\<bar>x\<bar> / u)) * u))"

text \<open>\<^verbatim>\<open>a / b\<close> on two finite numbers.\<close>

definition js_div :: "rat \<Rightarrow> rat \<Rightarrow> jsnum" where
  "js_div a b =
     (if b = 0 then (if 0 < a then PosInf else if a < 0 then NegInf else NaN)
      else Fin (fl (a / b)))"

text \<open>\<^verbatim>\<open>x * c\<close> for a positive finite constant \<open>c\<close>.\<close>

definition js_mul_const :: "jsnum \<Rightarrow> rat \<Rightarrow> jsnum" where
  "js_mul_const x c = (case x of Fin a \<Rightarrow> Fin (fl (a * c)) | PosInf \<Rightarrow> PosInf
     | NegInf \<Rightarrow> NegInf | NaN \<Rightarrow> NaN)"

text \<open>\<^verbatim>\<open>Math.round\<close>: the nearest integer, a tie going towards \<open>+\<infinity>\<close>.\<close>

definition Math_round :: "jsnum \<Rightarrow> jsnum" where
  "Math_round x = (case x of Fin a \<Rightarrow> Fin (of_int \<lfloor>a + 1/2\<rfloor>) | PosInf \<Rightarrow> PosInf
     | NegInf \<Rightarrow> NegInf | NaN \<Rightarrow> NaN)"

section \<open>Progress calculation\<close>

text \<open>
  \<^verbatim>\<open>const calcProgress = (index, total) => Math.round(((index + 1) / total) * 100)\<close>

  \<open>index\<close> is the wizard's position and \<open>total\<close> the length of the question array, so
  \<open>index + 1\<close> is exact.
\<close>

definition calcProgress :: "int \<Rightarrow> nat \<Rightarrow> jsnum" where
  "calcProgress index tot =
     Math_round (js_mul_const (js_div (of_int (index + 1)) (of_nat tot)) 100)"

section \<open>Questions, answers and the wizard's state\<close>

text \<open>
  \<^verbatim>\<open>type QType = 'text' | 'number' | 'radio' | 'textarea' | 'checkbox'\<close> and the
  \<^verbatim>\<open>Question\<close> type. The fields \<^verbatim>\<open>id\<close> and \<^verbatim>\<open>type\<close> are called \<open>qid\<close> and
  \<open>qtype\<close> here; an optional field is an \<open>option\<close>.
\<close>

datatype QType = Text | Number | Radio | Textarea | Checkbox

record Question =
  qid :: jsstring
  title :: jsstring
  description :: "jsstring option"
  qtype :: QType
  required :: "bool option"
  options :: "jsstring list option"

record Survey =
  survey_id :: jsstring
  survey_title :: jsstring
  survey_description :: "jsstring option"
  questions :: "Question list"

text \<open>
  The answer object is a list of its own properties in insertion order, with distinct keys.
  Assigning to a property it has keeps the property's place, assigning to a new one puts it
  last: this is \<open>AList.update\<close>. Reading a property the object does not have gives
  \<^verbatim>\<open>undefined\<close>.
\<close>

type_synonym answers = "(jsstring \<times> jsval) list"

definition js_get :: "answers \<Rightarrow> jsstring \<Rightarrow> jsval" where
  "js_get obj k = (case map_of obj k of None \<Rightarrow> Undefined | Some v \<Rightarrow> v)"

text \<open>
  The four \<^verbatim>\<open>useState\<close> cells of \<^verbatim>\<open>SurveyWizard\<close>. \<open>index\<close> is a JavaScript number
  that only ever holds integers; \<open>error\<close> is \<^verbatim>\<open>string | null\<close>.
\<close>

record Wizard =
  answers :: answers
  index :: int
  showPreview :: bool
  error :: "jsstring option"

text \<open>\<^verbatim>\<open>xs[i]\<close>: \<^verbatim>\<open>undefined\<close> (here \<open>None\<close>) outside the array.\<close>

definition js_nth :: "'a list \<Rightarrow> int \<Rightarrow> 'a option" where
  "js_nth xs i = (if 0 \<le> i \<and> i < int (length xs) then Some (xs ! nat i) else None)"

text \<open>\<^verbatim>\<open>xs.indexOf(x)\<close>: the first position holding \<open>x\<close>, or \<open>-1\<close>.\<close>

fun indexOf :: "'a list \<Rightarrow> 'a \<Rightarrow> int" where
  "indexOf [] x = - 1"
| "indexOf (y # ys) x =
     (if y = x then 0 else (let r = indexOf ys x in if r < 0 then - 1 else r + 1))"

text \<open>\<^verbatim>\<open>Boolean(v)\<close>, which is also what \<^verbatim>\<open>!v\<close> and \<^verbatim>\<open>v || w\<close> test.\<close>

fun truthy :: "jsval \<Rightarrow> bool" where
  "truthy Undefined = False"
| "truthy Null = False"
| "truthy (Bool b) = b"
| "truthy (Num n) = (n \<noteq> Fin 0 \<and> n \<noteq> NaN)"
| "truthy (Str s) = (s \<noteq> [])"
| "truthy (Arr xs) = True"

text \<open>
  \<^verbatim>\<open>String.prototype.trim\<close> removes the code units of ECMAScript's WhiteSpace and
  LineTerminator productions from both ends.
\<close>

definition is_whitespace :: "16 word \<Rightarrow> bool" where
  "is_whitespace c \<longleftrightarrow>
     c \<in> {0x09, 0x0A, 0x0B, 0x0C, 0x0D, 0x20, 0xA0, 0x1680, 0x2028, 0x2029, 0x202F, 0x205F,
          0x3000, 0xFEFF} \<or> (0x2000 \<le> c \<and> c \<le> 0x200A)"

definition trim :: "jsstring \<Rightarrow> jsstring" where
  "trim s = rev (dropWhile is_whitespace (rev (dropWhile is_whitespace s)))"

section \<open>The wizard's operations\<close>

text \<open>
  The initial answers: \<^verbatim>\<open>[]\<close> for a checkbox question, \<^verbatim>\<open>''\<close> for every other.
\<close>

definition initialAnswers :: "Question list \<Rightarrow> answers" where
  "initialAnswers qs =
     fold (\<lambda>q obj. AList.update (qid q) (if qtype q = Checkbox then Arr [] else Str []) obj) qs []"

definition initialState :: "Question list \<Rightarrow> Wizard" where
  "initialState qs = \<lparr>answers = initialAnswers qs, index = 0, showPreview = False, error = None\<rparr>"

text \<open>\<^verbatim>\<open>setAnswers((s) => ({ ...s, [qid]: value }))\<close>\<close>

definition setAnswer :: "jsstring \<Rightarrow> jsval \<Rightarrow> Wizard \<Rightarrow> Wizard" where
  "setAnswer k v s = s\<lparr>answers := AList.update k v (answers s)\<rparr>"

text \<open>
  \<^verbatim>\<open>canProceed\<close> reads the answers of the current render. The tests are in the source's
  order: not required, \<^verbatim>\<open>undefined\<close> or \<^verbatim>\<open>null\<close>, a string, an array, anything else.
\<close>

definition canProceed :: "answers \<Rightarrow> Question \<Rightarrow> bool" where
  "canProceed ans qi =
     (if required qi \<noteq> Some True then True
      else (case js_get ans (qid qi) of
              Undefined \<Rightarrow> False
            | Null \<Rightarrow> False
            | Str v \<Rightarrow> trim v \<noteq> []
            | Arr v \<Rightarrow> 0 < length v
            | Bool v \<Rightarrow> True
            | Num v \<Rightarrow> True))"

datatype js_error = TypeError

text \<open>
  \<^verbatim>\<open>handleNext\<close>. \<^verbatim>\<open>q = questions[index]\<close> is \<^verbatim>\<open>undefined\<close> when the index is outside
  the array, and \<^verbatim>\<open>canProceed(undefined)\<close> throws on \<^verbatim>\<open>qi.required\<close>.
\<close>

definition handleNext :: "Question list \<Rightarrow> Wizard \<Rightarrow> js_error + Wizard" where
  "handleNext qs s =
     (let s1 = s\<lparr>error := None\<rparr> in
      case js_nth qs (index s) of
        None \<Rightarrow> Inl TypeError
      | Some q \<Rightarrow>
          if \<not> canProceed (answers s) q
          then Inr (s1\<lparr>error := Some (lit ''This question is required.'')\<rparr>)
          else if index s < int (length qs) - 1 then Inr (s1\<lparr>index := index s1 + 1\<rparr>)
          else Inr (s1\<lparr>showPreview := True\<rparr>))"

definition handlePrev :: "Wizard \<Rightarrow> Wizard" where
  "handlePrev s =
     (let s1 = s\<lparr>error := None\<rparr> in
      if 0 < index s then s1\<lparr>index := index s1 - 1\<rparr> else s1)"

definition goToQuestion :: "int \<Rightarrow> Wizard \<Rightarrow> Wizard" where
  "goToQuestion i s = (s\<lparr>showPreview := False\<rparr>)\<lparr>index := i\<rparr>"

text \<open>
  The click handlers written inline in the markup: the \<^verbatim>\<open>Preview\<close> button and the
  \<^verbatim>\<open>Back to questions\<close> button.
\<close>

definition requestReview :: "Wizard \<Rightarrow> Wizard" where
  "requestReview s = s\<lparr>showPreview := True\<rparr>"

definition backToQuestions :: "Wizard \<Rightarrow> Wizard" where
  "backToQuestions s = s\<lparr>showPreview := False\<rparr>"

section \<open>Submission\<close>

text \<open>
  What \<^verbatim>\<open>fetch('/api/submit', ...)\<close> followed by \<^verbatim>\<open>resp.json()\<close> can give:
  \<^item> \<open>Rejected m\<close>: one of the two promises rejects with an error whose \<^verbatim>\<open>message\<close> is
    \<open>m\<close> (the network is down, the body is not JSON);
  \<^item> \<open>Response ok e\<close>: a parsed body, \<open>ok\<close> being \<^verbatim>\<open>resp.ok\<close> and \<open>e\<close> the body's
    \<^verbatim>\<open>error\<close> field, a string when present (the server of this repository sends
    \<^verbatim>\<open>{ error: '...' }\<close>).
  The gateway is a parameter: a function from the request to what comes back. The request is
  the pair of \<^verbatim>\<open>SURVEY.id\<close> and the answers, before \<^verbatim>\<open>JSON.stringify\<close>.
\<close>

datatype fetch_result = Rejected jsstring | Response bool "jsstring option"

type_synonym request = "jsstring \<times> answers"

datatype effect = Fetch request | Alert jsstring

text \<open>
  The body of the \<^verbatim>\<open>try\<close> block after the request: \<open>Inl m\<close> when an error with message
  \<open>m\<close> is thrown, by a rejected promise or by
  \<^verbatim>\<open>if (!resp.ok) throw new Error(data.error || 'Submit failed')\<close>.
\<close>

definition try_body :: "fetch_result \<Rightarrow> jsstring + unit" where
  "try_body r =
     (case r of
        Rejected m \<Rightarrow> Inl m
      | Response ok e \<Rightarrow>
          if \<not> ok
          then Inl (case e of None \<Rightarrow> lit ''Submit failed''
                    | Some m \<Rightarrow> if m \<noteq> [] then m else lit ''Submit failed'')
          else Inr ())"

text \<open>
  \<^verbatim>\<open>handleSubmit\<close> returns the new state and the calls it made to the outside, in order.
  The validation loop is \<open>find\<close>: the first question, in the array's order, that is required
  and fails \<open>canProceed\<close>. \<^verbatim>\<open>console.log\<close> and \<^verbatim>\<open>console.error\<close> are left out.
\<close>

definition handleSubmit ::
  "(request \<Rightarrow> fetch_result) \<Rightarrow> Survey \<Rightarrow> Wizard \<Rightarrow> Wizard \<times> effect list" where
  "handleSubmit gateway survey s =
     (case find (\<lambda>qq. required qq = Some True \<and> \<not> canProceed (answers s) qq) (questions survey) of
        Some qq \<Rightarrow>
          (((s\<lparr>showPreview := False\<rparr>)\<lparr>index := indexOf (questions survey) qq\<rparr>)
             \<lparr>error := Some (lit ''Please complete required fields.'')\<rparr>, [])
      | None \<Rightarrow>
          (let s1 = s\<lparr>error := None\<rparr>; req = (survey_id survey, answers s) in
           case try_body (gateway req) of
             Inr u \<Rightarrow> (s1, [Fetch req, Alert (lit ''Survey submitted! '' @ [0x2705])])
           | Inl m \<Rightarrow>
               (s1\<lparr>error := Some (if m \<noteq> [] then m else lit ''Submission failed'')\<rparr>,
                [Fetch req])))"

section \<open>The checkbox control and the preview\<close>

text \<open>
  \<^verbatim>\<open>new Set(array)\<close> keeps the first occurrence of every element, in the array's order;
  \<^verbatim>\<open>set.add\<close> puts a new element last, \<^verbatim>\<open>set.delete\<close> takes the element out, and
  \<^verbatim>\<open>Array.from(set)\<close> lists the elements in that order.
\<close>

definition new_Set :: "'a list \<Rightarrow> 'a list" where
  "new_Set xs = fold (\<lambda>x st. if x \<in> set st then st else st @ [x]) xs []"

text \<open>The \<^verbatim>\<open>onChange\<close> of one checkbox of a \<^verbatim>\<open>checkbox\<close> question.\<close>

definition checkbox_onChange :: "jsval \<Rightarrow> jsstring \<Rightarrow> jsval" where
  "checkbox_onChange v opt =
     (let st = new_Set (case v of Arr xs \<Rightarrow> xs | _ \<Rightarrow> []) in
      Arr (if opt \<in> set st then remove1 opt st else st @ [opt]))"

text \<open>\<^verbatim>\<open>Object.values(answers).filter(Boolean).length\<close>\<close>

definition answeredCount :: "answers \<Rightarrow> nat" where
  "answeredCount ans = length (filter truthy (map snd ans))"

section \<open>The survey of the repository\<close>

definition SURVEY :: Survey where
  "SURVEY = \<lparr>
     survey_id = lit ''demo_survey'',
     survey_title = lit ''Quick Health & Lifestyle Survey'',
     survey_description = Some (lit ''A few short questions. Progress saves as you navigate.''),
     questions = [
       \<lparr>qid = lit ''q_name'', title = lit ''What'' @ [0x27] @ lit ''s your full name?'',
        description = Some (lit ''Please type your name as you would like it to appear.''),
        qtype = Text, required = Some True, options = None\<rparr>,
       \<lparr>qid = lit ''q_age'', title = lit ''What'' @ [0x27] @ lit ''s your age?'',
        description = None, qtype = Number, required = Some True, options = None\<rparr>,
       \<lparr>qid = lit ''q_activity'', title = lit ''Which activities do you do regularly?'',
        description = None, qtype = Checkbox, required = None,
        options = Some [lit ''Walking'', lit ''Running'', lit ''Swimming'', lit ''Cycling'',
                        lit ''Gym'']\<rparr>,
       \<lparr>qid = lit ''q_smoke'', title = lit ''Do you smoke?'',
        description = None, qtype = Radio, required = Some True,
        options = Some [lit ''No'', lit ''Occasionally'', lit ''Regularly'']\<rparr>,
       \<lparr>qid = lit ''q_notes'', title = lit ''Anything else you want to share?'',
        description = Some (lit ''Optional '' @ [0x2014] @
                            lit '' e.g., health conditions, preferences.''),
        qtype = Textarea, required = None, options = None\<rparr>]\<rparr>"

section \<open>Rounding is monotone\<close>

lemma rne_bounds: "\<lfloor>x\<rfloor> \<le> rne x \<and> rne x \<le> \<lfloor>x\<rfloor> + 1"
  by (simp add: rne_def Let_def)

lemma rne_of_int: "rne (of_int n) = n"
  by (simp add: rne_def)

lemma rne_mono:
  assumes "x \<le> y"
  shows "rne x \<le> rne y"
proof (cases "\<lfloor>x\<rfloor> = \<lfloor>y\<rfloor>")
  case True
  with assms have "x - of_int \<lfloor>x\<rfloor> \<le> y - of_int \<lfloor>y\<rfloor>" by simp
  with True show ?thesis by (auto simp: rne_def Let_def)
next
  case False
  with assms have "\<lfloor>x\<rfloor> + 1 \<le> \<lfloor>y\<rfloor>"
    using floor_mono [OF assms] by linarith
  with rne_bounds [of x] rne_bounds [of y] show ?thesis by linarith
qed

lemma bitlen_lower_rat:
  assumes "0 < a"
  shows "(2::rat) powi (bitlen a - 1) \<le> of_int a"
proof -
  have "1 \<le> bitlen a"
    using assms bitlen_eq_zero_iff [of a] bitlen_nonneg [of a] by linarith
  moreover have "2 ^ nat (bitlen a - 1) \<le> a" using bitlen_bounds [OF assms] by simp
  then have "(of_int (2 ^ nat (bitlen a - 1)) :: rat) \<le> of_int a" by (simp only: of_int_le_iff)
  ultimately show ?thesis by (simp add: power_int_def)
qed

lemma bitlen_upper_rat:
  assumes "0 < a"
  shows "(of_int a :: rat) < 2 powi bitlen a"
proof -
  have "1 \<le> bitlen a"
    using assms bitlen_eq_zero_iff [of a] bitlen_nonneg [of a] by linarith
  moreover have "a < 2 ^ nat (bitlen a)" using bitlen_bounds [OF assms] by simp
  then have "(of_int a :: rat) < of_int (2 ^ nat (bitlen a))" by (simp only: of_int_less_iff)
  ultimately show ?thesis by (simp add: power_int_def)
qed

lemma ilog2_bounds:
  assumes "0 < x"
  shows "2 powi ilog2 x \<le> x" and "x < 2 powi (ilog2 x + 1)"
proof -
  obtain a b where q: "quotient_of x = (a, b)" by force
  have b: "0 < b" using quotient_of_denom_pos [OF q] .
  have x: "x = of_int a / of_int b" using quotient_of_div [OF q] .
  have a: "0 < a" using assms b unfolding x by (simp add: zero_less_divide_iff)
  define d where "d = bitlen a - bitlen b"
  have upper: "x < 2 powi (d + 1)"
  proof -
    have "x * 2 powi (bitlen b - 1) \<le> x * of_int b"
      using bitlen_lower_rat [OF b] assms by (simp add: mult_left_mono)
    also have "\<dots> = of_int a" using b by (simp add: x)
    also have "\<dots> < 2 powi bitlen a" by (rule bitlen_upper_rat [OF a])
    also have "\<dots> = 2 powi (d + 1) * 2 powi (bitlen b - 1)"
      using power_int_add [of "2::rat" "d + 1" "bitlen b - 1"] by (simp add: d_def)
    finally show ?thesis by simp
  qed
  have lower: "2 powi (d - 1) \<le> x"
  proof -
    have "(2::rat) powi (d - 1) * of_int b \<le> 2 powi (d - 1) * 2 powi bitlen b"
      using bitlen_upper_rat [OF b] by (simp add: mult_left_mono)
    also have "\<dots> = 2 powi (bitlen a - 1)"
      using power_int_add [of "2::rat" "d - 1" "bitlen b"] by (simp add: d_def)
    also have "\<dots> \<le> of_int a" by (rule bitlen_lower_rat [OF a])
    also have "\<dots> = x * of_int b" using b by (simp add: x)
    finally show ?thesis using b by simp
  qed
  have e: "ilog2 x = (if 2 powi d \<le> x then d else d - 1)"
    by (simp add: ilog2_def q d_def Let_def)
  show "2 powi ilog2 x \<le> x" using lower by (simp add: e)
  show "x < 2 powi (ilog2 x + 1)" using upper by (auto simp: e)
qed

lemma ilog2_mono:
  assumes "0 < x" "x \<le> y"
  shows "ilog2 x \<le> ilog2 y"
proof (rule ccontr)
  assume "\<not> ilog2 x \<le> ilog2 y"
  then have "ilog2 y + 1 \<le> ilog2 x" by simp
  then have "(2::rat) powi (ilog2 y + 1) \<le> 2 powi ilog2 x"
    by (intro power_int_increasing) simp_all
  moreover have "y < 2 powi (ilog2 y + 1)" using assms by (intro ilog2_bounds) simp
  moreover have "2 powi ilog2 x \<le> x" using assms by (intro ilog2_bounds)
  ultimately show False using assms by linarith
qed

lemma fl_pos_eq:
  "0 < x \<Longrightarrow> fl x = of_int (rne (x / 2 powi (ilog2 x - 52))) * 2 powi (ilog2 x - 52)"
  by (simp add: fl_def Let_def)

lemma fl_lower:
  assumes "0 < x"
  shows "2 powi ilog2 x \<le> fl x"
proof -
  let ?u = "(2::rat) powi (ilog2 x - 52)"
  have u: "0 < ?u" by simp
  have split: "(2::rat) powi ilog2 x = of_int (2 ^ 52) * ?u"
    using power_int_add [of "2::rat" 52 "ilog2 x - 52"] by simp
  then have "of_int (2 ^ 52) * ?u \<le> x" using ilog2_bounds(1) [OF assms] by simp
  then have "of_int (2 ^ 52) \<le> x / ?u" using u by (simp add: pos_le_divide_eq)
  then have "rne (of_int (2 ^ 52)) \<le> rne (x / ?u)" by (rule rne_mono)
  then have "(2::int) ^ 52 \<le> rne (x / ?u)" by (simp only: rne_of_int)
  then have "(of_int (2 ^ 52) :: rat) \<le> of_int (rne (x / ?u))" by (simp only: of_int_le_iff)
  then have "of_int (2 ^ 52) * ?u \<le> of_int (rne (x / ?u)) * ?u"
    using u by (simp only: mult_le_cancel_right_pos)
  then show ?thesis using assms by (simp only: fl_pos_eq split)
qed

lemma fl_upper:
  assumes "0 < x" "ilog2 x < e"
  shows "fl x \<le> 2 powi e"
proof -
  let ?u = "(2::rat) powi (ilog2 x - 52)"
  define k where "k = nat (e - ilog2 x + 52)"
  have u: "0 < ?u" by simp
  have "(2::rat) powi (e - ilog2 x + 52) = of_int (2 ^ k)"
    using assms(2) by (simp add: k_def power_int_def)
  then have pe: "(2::rat) powi e = of_int (2 ^ k) * ?u"
    using power_int_add [of "2::rat" "e - ilog2 x + 52" "ilog2 x - 52"] by simp
  have "x < 2 powi (ilog2 x + 1)" by (rule ilog2_bounds(2) [OF assms(1)])
  also have "\<dots> \<le> 2 powi e" using assms(2) by (intro power_int_increasing) simp_all
  finally have "x \<le> of_int (2 ^ k) * ?u" by (simp add: pe)
  then have "x / ?u \<le> of_int (2 ^ k)" using u by (simp add: pos_divide_le_eq)
  then have "rne (x / ?u) \<le> rne (of_int (2 ^ k))" by (rule rne_mono)
  then have "rne (x / ?u) \<le> 2 ^ k" by (simp only: rne_of_int)
  then have "(of_int (rne (x / ?u)) :: rat) \<le> of_int (2 ^ k)" by (simp only: of_int_le_iff)
  then have "of_int (rne (x / ?u)) * ?u \<le> of_int (2 ^ k) * ?u"
    using u by (simp only: mult_le_cancel_right_pos)
  then show ?thesis using assms(1) by (simp only: fl_pos_eq pe)
qed

lemma fl_pos: "0 < x \<Longrightarrow> 0 < fl x"
  using fl_lower [of x] zero_less_power_int [of "2::rat" "ilog2 x"] by linarith

lemma fl_mono:
  assumes "0 < x" "x \<le> y"
  shows "fl x \<le> fl y"
proof (cases "ilog2 x = ilog2 y")
  case True
  let ?u = "(2::rat) powi (ilog2 y - 52)"
  have u: "0 < ?u" by simp
  have "x / ?u \<le> y / ?u" using assms(2) u by (intro divide_right_mono) simp_all
  then have "rne (x / ?u) \<le> rne (y / ?u)" by (rule rne_mono)
  then have "(of_int (rne (x / ?u)) :: rat) \<le> of_int (rne (y / ?u))" by (simp only: of_int_le_iff)
  then have "of_int (rne (x / ?u)) * ?u \<le> of_int (rne (y / ?u)) * ?u"
    using u by (simp only: mult_le_cancel_right_pos)
  then show ?thesis using assms True by (simp add: fl_pos_eq)
next
  case False
  have y: "0 < y" using assms by simp
  from False ilog2_mono [OF assms] have "ilog2 x < ilog2 y" by simp
  then have "fl x \<le> 2 powi ilog2 y" by (rule fl_upper [OF assms(1)])
  also have "\<dots> \<le> fl y" by (rule fl_lower [OF y])
  finally show ?thesis .
qed

section \<open>Progress: claim C1\<close>

lemma calcProgress_pos:
  "0 < tot \<Longrightarrow>
   calcProgress i tot = Fin (of_int \<lfloor>fl (fl (of_int (i + 1) / of_nat tot) * 100) + 1 / 2\<rfloor>)"
  by (simp add: calcProgress_def js_div_def js_mul_const_def Math_round_def)

lemma percent_mono:
  assumes "0 < x" "x \<le> y"
  shows "\<lfloor>fl (fl x * 100) + 1 / 2\<rfloor> \<le> \<lfloor>fl (fl y * 100) + 1 / 2\<rfloor>"
proof -
  have "0 < fl x" by (rule fl_pos [OF assms(1)])
  moreover have "fl x \<le> fl y" by (rule fl_mono [OF assms])
  ultimately have "fl (fl x * 100) \<le> fl (fl y * 100)"
    by (intro fl_mono) simp_all
  then show ?thesis by (intro floor_mono) simp
qed

lemma percent_one: "\<lfloor>fl (fl 1 * 100) + 1 / 2\<rfloor> = 100"
  by code_simp

lemma percent_198_199: "\<lfloor>fl (fl (198 / 199) * 100) + 1 / 2\<rfloor> = 99"
  by code_simp

lemma percent_999_1000: "\<lfloor>fl (fl (999 / 1000) * 100) + 1 / 2\<rfloor> = 100"
  by code_simp

lemma percent_23_40: "\<lfloor>fl (fl (23 / 40) * 100) + 1 / 2\<rfloor> = 57"
  by code_simp

text \<open>
  Claim C1, as the specification states it: for every \<open>total \<ge> 1\<close> and every index in
  \<open>[0, total)\<close>, the progress is non-decreasing in the index and equals 100 exactly when
  the index is \<open>total - 1\<close>. The second half fails once rounding reaches 100 early: with
  1000 questions, index 998 gives \<open>99.9\<close>, which rounds to 100.
\<close>

theorem calcProgress_counterexample:
  "calcProgress 998 1000 = Fin 100 \<and> (0::int) \<le> 998 \<and> (998::int) < int 1000 \<and> (998::int) \<noteq> int 1000 - 1"
  using percent_999_1000 by (simp add: calcProgress_pos)

text \<open>
  Claim C1, amended: for every \<open>total \<ge> 1\<close> and indices \<open>0 \<le> i \<le> j < total\<close>, the
  progress at \<open>i\<close> and at \<open>j\<close> are integers \<open>p \<le> q\<close>; the progress at the last index
  is 100; and when there are fewer than 200 questions, the progress is 100 exactly at the
  last index.
\<close>

theorem calcProgress_monotone:
  assumes "1 \<le> tot" "0 \<le> i" "i \<le> j" "j < int tot"
  shows "(\<exists>p q. calcProgress i tot = Fin (of_int p) \<and> calcProgress j tot = Fin (of_int q) \<and> p \<le> q)
       \<and> calcProgress (int tot - 1) tot = Fin 100
       \<and> (tot < 200 \<longrightarrow> (calcProgress i tot = Fin 100) = (i = int tot - 1))"
proof (intro conjI impI)
  have tot: "0 < tot" using assms(1) by simp
  have pos: "(0::rat) < of_int (i + 1) / of_nat tot"
    using assms tot by (simp add: zero_less_divide_iff)
  have le: "(of_int (i + 1) :: rat) / of_nat tot \<le> of_int (j + 1) / of_nat tot"
    using assms tot by (intro divide_right_mono) simp_all
  show "\<exists>p q. calcProgress i tot = Fin (of_int p) \<and> calcProgress j tot = Fin (of_int q) \<and> p \<le> q"
    using percent_mono [OF pos le] tot by (auto simp: calcProgress_pos)
  have last: "(of_int (int tot - 1 + 1) :: rat) / of_nat tot = 1"
    using tot by simp
  show full: "calcProgress (int tot - 1) tot = Fin 100"
    using tot by (simp only: calcProgress_pos last percent_one) simp
  assume small: "tot < 200"
  show "(calcProgress i tot = Fin 100) = (i = int tot - 1)"
  proof (cases "i = int tot - 1")
    case True
    then show ?thesis using full by simp
  next
    case False
    then have i: "i + 1 \<le> int tot - 1" using assms by simp
    have "199 * (i + 1) \<le> 198 * int tot" using i small by simp
    then have "(of_int (199 * (i + 1)) :: rat) \<le> of_int (198 * int tot)"
      by (simp only: of_int_le_iff)
    then have "(of_int (i + 1) :: rat) / of_nat tot \<le> 198 / 199"
      using tot by (simp add: field_simps)
    from percent_mono [OF pos this]
    have "\<lfloor>fl (fl (of_int (i + 1) / of_nat tot) * 100) + 1 / 2\<rfloor> \<le> 99"
      by (simp only: percent_198_199)
    moreover define p where "p = \<lfloor>fl (fl (of_int (i + 1) / of_nat tot) * 100) + 1 / 2\<rfloor>"
    ultimately have "p \<le> 99" by simp
    moreover have "calcProgress i tot = Fin (of_int p)"
      using tot by (simp only: calcProgress_pos p_def)
    ultimately have "calcProgress i tot \<noteq> Fin 100" by simp
    with False show ?thesis by simp
  qed
qed

theorem calcProgress_monotone_witness:
  "(1::nat) \<le> 5 \<and> (0::int) \<le> 1 \<and> (1::int) \<le> 3 \<and> (3::int) < int 5
   \<and> (\<exists>p q. calcProgress 1 5 = Fin (of_int p) \<and> calcProgress 3 5 = Fin (of_int q) \<and> p \<le> q)
   \<and> calcProgress (int 5 - 1) 5 = Fin 100
   \<and> (5::nat) < 200 \<and> (calcProgress 1 5 = Fin 100) = ((1::int) = int 5 - 1)"
  using calcProgress_monotone [of 5 1 3] by simp

section \<open>Answers: claims C9, C4 and C10\<close>

text \<open>
  Claim C9: for every question id \<open>k\<close>, value \<open>v\<close> and state, \<open>setAnswer k v\<close> makes the
  entry for \<open>k\<close> equal to \<open>v\<close>, leaves every other entry of the answers as it was, and
  leaves the index, the phase and the validation error unchanged.
\<close>

theorem setAnswer_frame:
  "map_of (answers (setAnswer k v s)) = (map_of (answers s))(k \<mapsto> v)
   \<and> js_get (answers (setAnswer k v s)) k = v
   \<and> index (setAnswer k v s) = index s
   \<and> showPreview (setAnswer k v s) = showPreview s
   \<and> error (setAnswer k v s) = error s"
  by (simp add: setAnswer_def js_get_def update_conv')

lemma js_get_setAnswer_other:
  "k' \<noteq> k \<Longrightarrow> js_get (answers (setAnswer k v s)) k' = js_get (answers s) k'"
  by (simp add: setAnswer_def js_get_def update_conv')

text \<open>
  The keys of the answer object are distinct from the start and stay so.
\<close>

lemma distinct_initialAnswers_aux:
  "distinct (map fst acc) \<Longrightarrow>
   distinct (map fst (fold (\<lambda>q obj. AList.update (qid q) (f q) obj) qs acc))"
  by (induction qs arbitrary: acc) (simp_all add: distinct_update)

lemma distinct_initialAnswers: "distinct (map fst (initialAnswers qs))"
  unfolding initialAnswers_def by (rule distinct_initialAnswers_aux) simp

lemma distinct_setAnswer:
  "distinct (map fst (answers s)) \<Longrightarrow> distinct (map fst (answers (setAnswer k v s)))"
  by (simp add: setAnswer_def distinct_update)

text \<open>
  Claim C4: for a required question whose stored value is the empty string or a number,
  \<open>canProceed\<close> is false only for the empty string and true for every number, zero and
  negative numbers included. The kind of the question plays no part in the code, so the
  theorem holds for the number kind in particular.
\<close>

theorem canProceed_number:
  assumes "required qi = Some True"
    and "js_get ans (qid qi) = v"
    and "v = Str [] \<or> v = Num n"
  shows "canProceed ans qi = (v \<noteq> Str [])"
  using assms by (auto simp: canProceed_def trim_def)

theorem canProceed_number_witness:
  "required (questions SURVEY ! 1) = Some True
   \<and> js_get [(lit ''q_age'', Num (Fin 0))] (qid (questions SURVEY ! 1)) = Num (Fin 0)
   \<and> (Num (Fin 0) = Str [] \<or> Num (Fin 0) = Num (Fin 0))
   \<and> canProceed [(lit ''q_age'', Num (Fin 0))] (questions SURVEY ! 1) = (Num (Fin 0) \<noteq> Str [])"
proof -
  have r: "required (questions SURVEY ! 1) = Some True" by (simp add: SURVEY_def)
  have g: "js_get [(lit ''q_age'', Num (Fin 0))] (qid (questions SURVEY ! 1)) = Num (Fin 0)"
    by (simp add: SURVEY_def js_get_def)
  have d: "Num (Fin 0) = Str [] \<or> Num (Fin 0) = Num (Fin 0)" by simp
  from canProceed_number [OF r g d] r g d show ?thesis by blast
qed

lemma canProceed_number_examples:
  "canProceed [(lit ''q_age'', Num (Fin 0))] (questions SURVEY ! 1)"
  "canProceed [(lit ''q_age'', Num (Fin (- 5)))] (questions SURVEY ! 1)"
  "\<not> canProceed [(lit ''q_age'', Str [])] (questions SURVEY ! 1)"
  by (simp_all add: SURVEY_def canProceed_def js_get_def trim_def)

lemma js_get_Cons:
  "js_get ((k, v) # ans) k' = (if k' = k then v else js_get ans k')"
  by (simp add: js_get_def)

lemma js_get_absent:
  assumes "k \<notin> fst ` set ans"
  shows "js_get ans k = Undefined"
proof -
  have "map_of ans k = None" using assms by (simp add: map_of_eq_None_iff)
  then show ?thesis by (simp add: js_get_def)
qed

lemma truthy_keys_subset: "{k. truthy (js_get ans k)} \<subseteq> fst ` set ans"
proof
  fix k assume "k \<in> {k. truthy (js_get ans k)}"
  then have "js_get ans k \<noteq> Undefined" by auto
  then show "k \<in> fst ` set ans" using js_get_absent by blast
qed

lemma finite_truthy_keys: "finite {k. truthy (js_get ans k)}"
  by (rule finite_subset [OF truthy_keys_subset]) simp

lemma answeredCount_card:
  "distinct (map fst ans) \<Longrightarrow> answeredCount ans = card {k. truthy (js_get ans k)}"
proof (induction ans)
  case Nil
  then show ?case by (simp add: answeredCount_def js_get_def)
next
  case (Cons p ans)
  obtain k v where p: "p = (k, v)" by (cases p)
  from Cons.prems p have k: "k \<notin> fst ` set ans" and d: "distinct (map fst ans)" by simp_all
  have ih: "answeredCount ans = card {k. truthy (js_get ans k)}" by (rule Cons.IH [OF d])
  have notin: "k \<notin> {k. truthy (js_get ans k)}" using js_get_absent [OF k] by simp
  show ?case
  proof (cases "truthy v")
    case True
    have "{k'. truthy (js_get (p # ans) k')} = insert k {k'. truthy (js_get ans k')}"
      using True by (auto simp: p js_get_Cons)
    then have "card {k'. truthy (js_get (p # ans) k')} = Suc (card {k'. truthy (js_get ans k')})"
      using notin finite_truthy_keys [of ans] by simp
    then show ?thesis using True ih by (simp add: answeredCount_def p)
  next
    case False
    have "{k'. truthy (js_get (p # ans) k')} = {k'. truthy (js_get ans k')}"
      using False notin by (auto simp: p js_get_Cons)
    then show ?thesis using False ih by (simp add: answeredCount_def p)
  qed
qed

text \<open>
  Claim C10: the count shown in the preview is the number of entries of the answers whose
  value is truthy. The number 0 and the empty string are not counted, the empty array is.
\<close>

theorem answeredCount_truthy:
  assumes "distinct (map fst ans)"
  shows "answeredCount ans = card {k. truthy (js_get ans k)}
         \<and> \<not> truthy (Num (Fin 0)) \<and> \<not> truthy (Str []) \<and> truthy (Arr [])
         \<and> answeredCount (ans @ [(k, Num (Fin 0))]) = answeredCount ans
         \<and> answeredCount (ans @ [(k, Str [])]) = answeredCount ans
         \<and> answeredCount (ans @ [(k, Arr [])]) = answeredCount ans + 1"
  using answeredCount_card [OF assms] by (simp add: answeredCount_def)

theorem answeredCount_truthy_witness:
  "distinct (map fst [(lit ''a'', Num (Fin 0)), (lit ''b'', Str []), (lit ''c'', Arr []),
                      (lit ''d'', Str (lit ''x''))])
   \<and> answeredCount [(lit ''a'', Num (Fin 0)), (lit ''b'', Str []), (lit ''c'', Arr []),
                      (lit ''d'', Str (lit ''x''))]
       = card {k. truthy (js_get [(lit ''a'', Num (Fin 0)), (lit ''b'', Str []),
                                  (lit ''c'', Arr []), (lit ''d'', Str (lit ''x''))] k)}
   \<and> answeredCount [(lit ''a'', Num (Fin 0)), (lit ''b'', Str []), (lit ''c'', Arr []),
                      (lit ''d'', Str (lit ''x''))] = 2"
proof -
  let ?A = "[(lit ''a'', Num (Fin 0)), (lit ''b'', Str []), (lit ''c'', Arr []),
             (lit ''d'', Str (lit ''x''))]"
  have d: "distinct (map fst ?A)" by (simp add: lit_def)
  have c: "answeredCount ?A = 2" by (simp add: answeredCount_def lit_def)
  from answeredCount_truthy [OF d, of "[]"] d c show ?thesis by blast
qed

section \<open>Navigation\<close>

text \<open>
  Claim C8: for every index \<open>i\<close> (in range or not) and every state, \<open>goToQuestion i\<close>
  puts the wizard in the answering phase at index \<open>i\<close>, whatever the answers and the
  validation error are, and a second call with the same \<open>i\<close> changes nothing.
\<close>

theorem goToQuestion_idempotent:
  "showPreview (goToQuestion i s) = False
   \<and> index (goToQuestion i s) = i
   \<and> answers (goToQuestion i s) = answers s
   \<and> goToQuestion i (goToQuestion i s) = goToQuestion i s"
  by (simp add: goToQuestion_def)

lemma goToQuestion_error: "error (goToQuestion i s) = error s"
  by (simp add: goToQuestion_def)

lemma handlePrev_error: "error (handlePrev s) = None"
  by (simp add: handlePrev_def Let_def)

lemma handleNext_error:
  "handleNext qs s = Inr s' \<Longrightarrow>
   error s' = None \<or> error s' = Some (lit ''This question is required.'')"
  by (auto simp: handleNext_def Let_def split: option.splits if_splits)

lemma handleNext_ignores_error: "handleNext qs (s\<lparr>error := e\<rparr>) = handleNext qs s"
  by (simp add: handleNext_def Let_def split: option.splits)

text \<open>
  Claim C5 says that \<open>handleNext\<close>, \<open>handlePrev\<close> and \<open>goToQuestion\<close> all clear the
  validation error. The first two do (\<open>handleNext_error\<close>, \<open>handlePrev_error\<close>);
  \<open>goToQuestion\<close> has no \<^verbatim>\<open>setError(null)\<close> and keeps it. On the survey of the
  repository: open the preview, submit with the required name empty (the wizard returns to
  question 0 with the message), open the preview again and click \<^verbatim>\<open>Edit\<close> on the third
  question. The message is still there, under an optional question.
\<close>

theorem goToQuestion_keeps_error:
  "error (goToQuestion 2 (requestReview (fst (handleSubmit (\<lambda>r. Response True None) SURVEY
      (requestReview (initialState (questions SURVEY)))))))
   = Some (lit ''Please complete required fields.'')"
  by code_simp

text \<open>
  Claim C3: in the answering phase with the index inside the array, \<open>handleNext\<close> does not
  depend on the previous validation error (it is cleared first). If the current question
  fails \<open>canProceed\<close> the error becomes the fixed message and nothing else changes;
  otherwise the error is absent and either the index grows by one (not on the last
  question) or the phase becomes reviewing with the index unchanged (on the last question,
  the only other case).
\<close>

theorem handleNext_answering:
  assumes "showPreview s = False"
    and "js_nth qs (index s) = Some q"
  shows "handleNext qs s =
      Inr (if \<not> canProceed (answers s) q
           then s\<lparr>error := Some (lit ''This question is required.'')\<rparr>
           else if index s < int (length qs) - 1
           then s\<lparr>index := index s + 1, error := None\<rparr>
           else s\<lparr>showPreview := True, error := None\<rparr>)
    \<and> (index s < int (length qs) - 1 \<or> index s = int (length qs) - 1)
    \<and> handleNext qs (s\<lparr>error := e\<rparr>) = handleNext qs s"
proof (intro conjI)
  show "handleNext qs s =
      Inr (if \<not> canProceed (answers s) q
           then s\<lparr>error := Some (lit ''This question is required.'')\<rparr>
           else if index s < int (length qs) - 1
           then s\<lparr>index := index s + 1, error := None\<rparr>
           else s\<lparr>showPreview := True, error := None\<rparr>)"
    using assms(2) by (simp add: handleNext_def Let_def)
  show "index s < int (length qs) - 1 \<or> index s = int (length qs) - 1"
    using assms(2) by (auto simp: js_nth_def split: if_splits)
  show "handleNext qs (s\<lparr>error := e\<rparr>) = handleNext qs s"
    by (simp add: handleNext_def Let_def split: option.splits)
qed

section \<open>Submission\<close>

lemma indexOf_first:
  "i < length xs \<Longrightarrow> \<forall>j<i. xs ! j \<noteq> xs ! i \<Longrightarrow> indexOf xs (xs ! i) = int i"
proof (induction xs arbitrary: i)
  case Nil
  then show ?case by simp
next
  case (Cons y ys)
  show ?case
  proof (cases i)
    case 0
    then show ?thesis by simp
  next
    case (Suc k)
    from Cons.prems(2) Suc have ne: "y \<noteq> ys ! k" by auto
    from Cons.prems(1) Suc have k: "k < length ys" by simp
    have "\<forall>j<k. ys ! j \<noteq> ys ! k"
    proof (intro allI impI)
      fix j assume "j < k"
      then have "Suc j < i" using Suc by simp
      with Cons.prems(2) have "(y # ys) ! Suc j \<noteq> (y # ys) ! i" by blast
      then show "ys ! j \<noteq> ys ! k" using Suc by simp
    qed
    from Cons.IH [OF k this] have "indexOf ys (ys ! k) = int k" .
    then show ?thesis using ne Suc by (simp add: Let_def)
  qed
qed

lemma find_indexOf:
  assumes "find P xs = Some x"
  shows "\<exists>i<length xs. xs ! i = x \<and> P x \<and> (\<forall>j<i. \<not> P (xs ! j)) \<and> indexOf xs x = int i"
proof -
  from assms obtain i where i: "i < length xs" "P (xs ! i)" "x = xs ! i" "\<forall>j<i. \<not> P (xs ! j)"
    by (auto simp: find_Some_iff)
  then have "\<forall>j<i. xs ! j \<noteq> xs ! i" by metis
  from indexOf_first [OF i(1) this] i show ?thesis by auto
qed

text \<open>
  Claim C2: if some required question fails \<open>canProceed\<close>, \<open>handleSubmit\<close> puts the
  wizard in the answering phase at the position of the first such question in the survey's
  order, with the fixed message as validation error; the answers are unchanged and no
  request is sent (the list of outside calls is empty).
\<close>

theorem handleSubmit_validation:
  assumes "\<exists>q \<in> set (questions sv). required q = Some True \<and> \<not> canProceed (answers s) q"
  shows "\<exists>i<length (questions sv).
           (required (questions sv ! i) = Some True \<and> \<not> canProceed (answers s) (questions sv ! i))
         \<and> (\<forall>j<i. \<not> (required (questions sv ! j) = Some True
                      \<and> \<not> canProceed (answers s) (questions sv ! j)))
         \<and> handleSubmit gw sv s =
             (s\<lparr>index := int i, showPreview := False,
                error := Some (lit ''Please complete required fields.'')\<rparr>, [])"
proof -
  let ?P = "\<lambda>qq. required qq = Some True \<and> \<not> canProceed (answers s) qq"
  from assms have "find ?P (questions sv) \<noteq> None" by (auto simp: find_None_iff)
  then obtain qq where f: "find ?P (questions sv) = Some qq" by auto
  from find_indexOf [OF f] obtain i where i: "i < length (questions sv)"
    "questions sv ! i = qq" "?P qq" "\<forall>j<i. \<not> ?P (questions sv ! j)"
    "indexOf (questions sv) qq = int i" by blast
  have "handleSubmit gw sv s =
      (s\<lparr>index := int i, showPreview := False,
         error := Some (lit ''Please complete required fields.'')\<rparr>, [])"
    using f i(5) by (simp add: handleSubmit_def)
  with i show ?thesis by blast
qed

text \<open>
  The three ways the request fails, and the message of the error thrown in each.
\<close>

lemma try_body_Inl:
  "try_body r = Inl m \<longleftrightarrow>
     r = Rejected m
     \<or> (\<exists>e. r = Response False (Some e) \<and> e \<noteq> [] \<and> m = e)
     \<or> ((r = Response False None \<or> r = Response False (Some [])) \<and> m = lit ''Submit failed'')"
  by (auto simp: try_body_def split: fetch_result.splits option.splits if_splits)

text \<open>
  Claim C6: in the reviewing phase, when every required question passes \<open>canProceed\<close> and
  the gateway reports a failure with the message \<open>m\<close> (the request is rejected with an
  error whose message is \<open>m\<close>, or the response is not ok and the \<^verbatim>\<open>error\<close> field of
  its body is \<open>m\<close>), \<open>m\<close> being human-readable, that is, not the empty string:
  \<open>handleSubmit\<close> sends the request once, sets the validation error to \<open>m\<close> itself and
  stays in the reviewing phase.
\<close>

theorem handleSubmit_gateway_failure:
  assumes "showPreview s"
    and "\<forall>q \<in> set (questions sv). required q = Some True \<longrightarrow> canProceed (answers s) q"
    and "gw (survey_id sv, answers s) = Rejected m
         \<or> gw (survey_id sv, answers s) = Response False (Some m)"
    and "m \<noteq> []"
  shows "handleSubmit gw sv s = (s\<lparr>error := Some m\<rparr>, [Fetch (survey_id sv, answers s)])
         \<and> showPreview (fst (handleSubmit gw sv s))"
proof -
  let ?P = "\<lambda>qq. required qq = Some True \<and> \<not> canProceed (answers s) qq"
  from assms(2) have none: "find ?P (questions sv) = None" by (auto simp: find_None_iff)
  from assms(3,4) have thrown: "try_body (gw (survey_id sv, answers s)) = Inl m"
    by (auto simp: try_body_def)
  from none thrown assms(4)
  have "handleSubmit gw sv s = (s\<lparr>error := Some m\<rparr>, [Fetch (survey_id sv, answers s)])"
    by (simp add: handleSubmit_def Let_def)
  then show ?thesis using assms(1) by simp
qed

text \<open>
  A failure that carries no message, or an empty one, is shown with a text of the client's
  own.
\<close>

lemma handleSubmit_failure_without_message:
  assumes "\<forall>q \<in> set (questions sv). required q = Some True \<longrightarrow> canProceed (answers s) q"
  shows "gw (survey_id sv, answers s) = Rejected [] \<Longrightarrow>
           error (fst (handleSubmit gw sv s)) = Some (lit ''Submission failed'')"
    and "gw (survey_id sv, answers s) = Response False None
         \<or> gw (survey_id sv, answers s) = Response False (Some []) \<Longrightarrow>
           error (fst (handleSubmit gw sv s)) = Some (lit ''Submit failed'')"
proof -
  let ?P = "\<lambda>qq. required qq = Some True \<and> \<not> canProceed (answers s) qq"
  from assms have none: "find ?P (questions sv) = None" by (auto simp: find_None_iff)
  show "gw (survey_id sv, answers s) = Rejected [] \<Longrightarrow>
           error (fst (handleSubmit gw sv s)) = Some (lit ''Submission failed'')"
    using none by (simp add: handleSubmit_def Let_def try_body_def)
  show "gw (survey_id sv, answers s) = Response False None
         \<or> gw (survey_id sv, answers s) = Response False (Some []) \<Longrightarrow>
           error (fst (handleSubmit gw sv s)) = Some (lit ''Submit failed'')"
    using none by (auto simp: handleSubmit_def Let_def try_body_def lit_def)
qed

section \<open>Witnesses on concrete surveys\<close>

theorem handleNext_answering_witness:
  "showPreview (goToQuestion 4 (initialState (questions SURVEY))) = False
   \<and> js_nth (questions SURVEY) (index (goToQuestion 4 (initialState (questions SURVEY))))
       = Some (questions SURVEY ! 4)
   \<and> handleNext (questions SURVEY) (goToQuestion 4 (initialState (questions SURVEY)))
       = Inr ((goToQuestion 4 (initialState (questions SURVEY)))\<lparr>showPreview := True, error := None\<rparr>)"
proof -
  let ?s = "goToQuestion 4 (initialState (questions SURVEY))"
  have h1: "showPreview ?s = False" by (simp add: goToQuestion_def)
  have h2: "js_nth (questions SURVEY) (index ?s) = Some (questions SURVEY ! 4)"
    by (simp add: goToQuestion_def js_nth_def SURVEY_def)
  have c: "canProceed (answers ?s) (questions SURVEY ! 4)"
    by (simp add: canProceed_def SURVEY_def)
  have i: "\<not> index ?s < int (length (questions SURVEY)) - 1"
    by (simp add: goToQuestion_def SURVEY_def)
  from handleNext_answering [OF h1 h2] c i h1 h2 show ?thesis by simp
qed

theorem handleSubmit_validation_witness:
  "(\<exists>q \<in> set (questions SURVEY). required q = Some True
        \<and> \<not> canProceed (answers (requestReview (initialState (questions SURVEY)))) q)
   \<and> (\<exists>i<length (questions SURVEY).
         handleSubmit (\<lambda>r. Response True None) SURVEY (requestReview (initialState (questions SURVEY)))
         = ((requestReview (initialState (questions SURVEY)))
              \<lparr>index := int i, showPreview := False,
               error := Some (lit ''Please complete required fields.'')\<rparr>, []))"
proof -
  let ?s = "requestReview (initialState (questions SURVEY))"
  have "questions SURVEY ! 0 \<in> set (questions SURVEY)" by (simp add: SURVEY_def)
  moreover have "required (questions SURVEY ! 0) = Some True" by (simp add: SURVEY_def)
  moreover have "\<not> canProceed (answers ?s) (questions SURVEY ! 0)" by code_simp
  ultimately have h: "\<exists>q \<in> set (questions SURVEY). required q = Some True
        \<and> \<not> canProceed (answers ?s) q" by blast
  from handleSubmit_validation [OF h, of "\<lambda>r. Response True None"] h show ?thesis by blast
qed

theorem handleSubmit_gateway_failure_witness:
  "showPreview (requestReview \<lparr>answers = [(lit ''q1'', Str (lit ''Alice''))], index = 0,
                                showPreview = False, error = None\<rparr>)
   \<and> canProceed [(lit ''q1'', Str (lit ''Alice''))]
         \<lparr>qid = lit ''q1'', title = lit ''Name'', description = None, qtype = Text,
          required = Some True, options = None\<rparr>
   \<and> lit ''network down'' \<noteq> []
   \<and> handleSubmit (\<lambda>r. Rejected (lit ''network down''))
        \<lparr>survey_id = lit ''s'', survey_title = lit ''t'', survey_description = None,
         questions = [\<lparr>qid = lit ''q1'', title = lit ''Name'', description = None, qtype = Text,
                       required = Some True, options = None\<rparr>]\<rparr>
        (requestReview \<lparr>answers = [(lit ''q1'', Str (lit ''Alice''))], index = 0,
                         showPreview = False, error = None\<rparr>)
      = ((requestReview \<lparr>answers = [(lit ''q1'', Str (lit ''Alice''))], index = 0,
                          showPreview = False, error = None\<rparr>)
            \<lparr>error := Some (lit ''network down'')\<rparr>,
         [Fetch (lit ''s'', [(lit ''q1'', Str (lit ''Alice''))])])
   \<and> lit ''server error'' \<noteq> []
   \<and> handleSubmit (\<lambda>r. Response False (Some (lit ''server error'')))
        \<lparr>survey_id = lit ''s'', survey_title = lit ''t'', survey_description = None,
         questions = [\<lparr>qid = lit ''q1'', title = lit ''Name'', description = None, qtype = Text,
                       required = Some True, options = None\<rparr>]\<rparr>
        (requestReview \<lparr>answers = [(lit ''q1'', Str (lit ''Alice''))], index = 0,
                         showPreview = False, error = None\<rparr>)
      = ((requestReview \<lparr>answers = [(lit ''q1'', Str (lit ''Alice''))], index = 0,
                          showPreview = False, error = None\<rparr>)
            \<lparr>error := Some (lit ''server error'')\<rparr>,
         [Fetch (lit ''s'', [(lit ''q1'', Str (lit ''Alice''))])])"
proof -
  let ?s = "requestReview \<lparr>answers = [(lit ''q1'', Str (lit ''Alice''))], index = 0,
                           showPreview = False, error = None\<rparr>"
  let ?sv = "\<lparr>survey_id = lit ''s'', survey_title = lit ''t'', survey_description = None,
         questions = [\<lparr>qid = lit ''q1'', title = lit ''Name'', description = None, qtype = Text,
                       required = Some True, options = None\<rparr>]\<rparr>"
  let ?net = "\<lambda>r :: request. Rejected (lit ''network down'')"
  let ?srv = "\<lambda>r :: request. Response False (Some (lit ''server error''))"
  have h1: "showPreview ?s" by (simp add: requestReview_def)
  have h2: "\<forall>q \<in> set (questions ?sv). required q = Some True \<longrightarrow> canProceed (answers ?s) q"
    by (simp add: requestReview_def canProceed_def js_get_def trim_def lit_def is_whitespace_def)
  have n3: "?net (survey_id ?sv, answers ?s) = Rejected (lit ''network down'')
            \<or> ?net (survey_id ?sv, answers ?s) = Response False (Some (lit ''network down''))"
    by simp
  have n4: "lit ''network down'' \<noteq> []" by (simp add: lit_def)
  have s3: "?srv (survey_id ?sv, answers ?s) = Rejected (lit ''server error'')
            \<or> ?srv (survey_id ?sv, answers ?s) = Response False (Some (lit ''server error''))"
    by simp
  have s4: "lit ''server error'' \<noteq> []" by (simp add: lit_def)
  have a: "answers ?s = [(lit ''q1'', Str (lit ''Alice''))]" by (simp add: requestReview_def)
  have c: "canProceed [(lit ''q1'', Str (lit ''Alice''))]
             \<lparr>qid = lit ''q1'', title = lit ''Name'', description = None, qtype = Text,
              required = Some True, options = None\<rparr>"
    using h2 a by simp
  from handleSubmit_gateway_failure [OF h1 h2 n3 n4]
       handleSubmit_gateway_failure [OF h1 h2 s3 s4] h1 c n4 s4 a
  show ?thesis by simp
qed

section \<open>The checkbox control: claim C7\<close>

lemma new_Set_fold_set:
  "set (fold (\<lambda>x st. if x \<in> set st then st else st @ [x]) xs acc) = set acc \<union> set xs"
  by (induction xs arbitrary: acc) auto

lemma new_Set_fold_distinct:
  "distinct acc \<Longrightarrow> distinct (fold (\<lambda>x st. if x \<in> set st then st else st @ [x]) xs acc)"
  by (induction xs arbitrary: acc) auto

lemma new_Set_fold_id:
  "distinct (acc @ xs) \<Longrightarrow> fold (\<lambda>x st. if x \<in> set st then st else st @ [x]) xs acc = acc @ xs"
  by (induction xs arbitrary: acc) auto

lemma set_new_Set: "set (new_Set xs) = set xs"
  by (simp add: new_Set_def new_Set_fold_set)

lemma distinct_new_Set: "distinct (new_Set xs)"
  by (simp add: new_Set_def new_Set_fold_distinct)

lemma new_Set_distinct_id: "distinct xs \<Longrightarrow> new_Set xs = xs"
  using new_Set_fold_id [of "[]" xs] by (simp add: new_Set_def)

lemma checkbox_onChange_Arr:
  "checkbox_onChange (Arr xs) opt =
     Arr (if opt \<in> set xs then remove1 opt (new_Set xs) else new_Set xs @ [opt])"
  by (simp add: checkbox_onChange_def Let_def set_new_Set)

text \<open>
  Claim C7: for every stored list \<open>xs\<close> and option \<open>opt\<close>, toggling gives a list \<open>ys\<close>
  without duplicates. If \<open>opt\<close> was in \<open>xs\<close> it is no longer in \<open>ys\<close> and the other
  elements are kept (in their order when \<open>xs\<close> had no duplicates); if it was not, it is put
  last, after the elements of \<open>xs\<close>. Toggling \<open>opt\<close> again gives a list \<open>zs\<close> with the same
  elements as \<open>xs\<close>.
\<close>

theorem checkbox_toggle:
  "\<exists>ys zs. checkbox_onChange (Arr xs) opt = Arr ys
     \<and> checkbox_onChange (Arr ys) opt = Arr zs
     \<and> distinct ys
     \<and> (opt \<in> set xs \<longrightarrow> opt \<notin> set ys \<and> set ys = set xs - {opt}
                          \<and> (distinct xs \<longrightarrow> ys = remove1 opt xs))
     \<and> (opt \<notin> set xs \<longrightarrow> ys = new_Set xs @ [opt] \<and> (distinct xs \<longrightarrow> ys = xs @ [opt]))
     \<and> set zs = set xs"
proof (cases "opt \<in> set xs")
  case True
  let ?ys = "remove1 opt (new_Set xs)"
  let ?zs = "new_Set ?ys @ [opt]"
  have ys: "checkbox_onChange (Arr xs) opt = Arr ?ys"
    using True by (simp add: checkbox_onChange_Arr)
  have d: "distinct ?ys" by (simp add: distinct_new_Set)
  have s: "set ?ys = set xs - {opt}"
    by (simp add: distinct_new_Set set_new_Set)
  then have notin: "opt \<notin> set ?ys" by simp
  have zs: "checkbox_onChange (Arr ?ys) opt = Arr ?zs"
    using notin by (simp only: checkbox_onChange_Arr if_False)
  have "set ?zs = set xs" using s True by (auto simp: set_new_Set)
  moreover have "distinct xs \<longrightarrow> ?ys = remove1 opt xs" by (simp add: new_Set_distinct_id)
  ultimately show ?thesis using ys zs d s notin True by blast
next
  case False
  let ?ys = "new_Set xs @ [opt]"
  let ?zs = "remove1 opt (new_Set ?ys)"
  have ys: "checkbox_onChange (Arr xs) opt = Arr ?ys"
    using False by (simp add: checkbox_onChange_Arr)
  have d: "distinct ?ys" using False by (simp add: distinct_new_Set set_new_Set)
  have "opt \<in> set ?ys" by simp
  then have zs: "checkbox_onChange (Arr ?ys) opt = Arr ?zs"
    by (simp only: checkbox_onChange_Arr if_True)
  have "new_Set ?ys = ?ys" by (rule new_Set_distinct_id [OF d])
  then have "set ?zs = set xs"
    using False d by (simp add: set_new_Set)
  moreover have "distinct xs \<longrightarrow> ?ys = xs @ [opt]" by (simp add: new_Set_distinct_id)
  ultimately show ?thesis using ys zs d False by blast
qed

theorem checkbox_toggle_witness:
  "lit ''Running'' \<in> set [lit ''Walking'', lit ''Running'']
   \<and> lit ''Gym'' \<notin> set [lit ''Walking'', lit ''Running'']
   \<and> distinct [lit ''Walking'', lit ''Running'']
   \<and> checkbox_onChange (Arr [lit ''Walking'', lit ''Running'']) (lit ''Running'')
       = Arr [lit ''Walking'']
   \<and> checkbox_onChange (Arr [lit ''Walking'', lit ''Running'']) (lit ''Gym'')
       = Arr [lit ''Walking'', lit ''Running'', lit ''Gym'']"
proof -
  let ?xs = "[lit ''Walking'', lit ''Running'']"
  have off: "checkbox_onChange (Arr xs) opt = Arr (remove1 opt xs)"
    if "opt \<in> set xs" "distinct xs" for xs opt
    using checkbox_toggle [of xs opt] that by (elim exE conjE) simp
  have on: "checkbox_onChange (Arr xs) opt = Arr (xs @ [opt])"
    if "opt \<notin> set xs" "distinct xs" for xs opt
    using checkbox_toggle [of xs opt] that by (elim exE conjE) simp
  have ne: "lit ''Walking'' \<noteq> lit ''Running''" by (simp add: lit_def)
  have a: "lit ''Running'' \<in> set ?xs" by simp
  have b: "lit ''Gym'' \<notin> set ?xs" by (simp add: lit_def)
  have c: "distinct ?xs" using ne by simp
  have r1: "checkbox_onChange (Arr ?xs) (lit ''Running'') = Arr [lit ''Walking'']"
    using off [OF a c] ne by simp
  have r2: "checkbox_onChange (Arr ?xs) (lit ''Gym'')
      = Arr [lit ''Walking'', lit ''Running'', lit ''Gym'']"
    using on [OF b c] by simp
  from a b c r1 r2 show ?thesis by (intro conjI)
qed

lemma checkbox_onChange_examples:
  "checkbox_onChange (Arr [lit ''a'', lit ''b'', lit ''a'']) (lit ''c'') = Arr [lit ''a'', lit ''b'', lit ''c'']"
  "checkbox_onChange (Arr [lit ''a'', lit ''b'', lit ''a'']) (lit ''a'') = Arr [lit ''b'']"
  "checkbox_onChange (Str []) (lit ''a'') = Arr [lit ''a'']"
  by code_simp+

section \<open>Worked examples\<close>

text \<open>
  The scenario of the specification: \<open>q1\<close> a required text question, \<open>q2\<close> an optional
  number question; answer \<open>q1\<close>, go on twice, submit with a gateway that succeeds.
\<close>

lemma scenario_two_questions:
  "setAnswer (lit ''q1'') (Str (lit ''Alice''))
     (initialState
        [\<lparr>qid = lit ''q1'', title = lit ''Name'', description = None, qtype = Text,
          required = Some True, options = None\<rparr>,
         \<lparr>qid = lit ''q2'', title = lit ''Age'', description = None, qtype = Number,
          required = None, options = None\<rparr>])
   = \<lparr>answers = [(lit ''q1'', Str (lit ''Alice'')), (lit ''q2'', Str [])], index = 0,
      showPreview = False, error = None\<rparr>"
  "handleNext
     [\<lparr>qid = lit ''q1'', title = lit ''Name'', description = None, qtype = Text,
       required = Some True, options = None\<rparr>,
      \<lparr>qid = lit ''q2'', title = lit ''Age'', description = None, qtype = Number,
       required = None, options = None\<rparr>]
     \<lparr>answers = [(lit ''q1'', Str (lit ''Alice'')), (lit ''q2'', Str [])], index = 0,
      showPreview = False, error = None\<rparr>
   = Inr \<lparr>answers = [(lit ''q1'', Str (lit ''Alice'')), (lit ''q2'', Str [])], index = 1,
          showPreview = False, error = None\<rparr>"
  "handleNext
     [\<lparr>qid = lit ''q1'', title = lit ''Name'', description = None, qtype = Text,
       required = Some True, options = None\<rparr>,
      \<lparr>qid = lit ''q2'', title = lit ''Age'', description = None, qtype = Number,
       required = None, options = None\<rparr>]
     \<lparr>answers = [(lit ''q1'', Str (lit ''Alice'')), (lit ''q2'', Str [])], index = 1,
      showPreview = False, error = None\<rparr>
   = Inr \<lparr>answers = [(lit ''q1'', Str (lit ''Alice'')), (lit ''q2'', Str [])], index = 1,
          showPreview = True, error = None\<rparr>"
  "handleSubmit (\<lambda>r. Response True None)
     \<lparr>survey_id = lit ''s'', survey_title = lit ''t'', survey_description = None,
      questions =
        [\<lparr>qid = lit ''q1'', title = lit ''Name'', description = None, qtype = Text,
          required = Some True, options = None\<rparr>,
         \<lparr>qid = lit ''q2'', title = lit ''Age'', description = None, qtype = Number,
          required = None, options = None\<rparr>]\<rparr>
     \<lparr>answers = [(lit ''q1'', Str (lit ''Alice'')), (lit ''q2'', Str [])], index = 1,
      showPreview = True, error = None\<rparr>
   = (\<lparr>answers = [(lit ''q1'', Str (lit ''Alice'')), (lit ''q2'', Str [])], index = 1,
       showPreview = True, error = None\<rparr>,
      [Fetch (lit ''s'', [(lit ''q1'', Str (lit ''Alice'')), (lit ''q2'', Str [])]),
       Alert (lit ''Survey submitted! '' @ [0x2705])])"
  by code_simp+

text \<open>
  \<open>handleNext\<close> on the survey of the repository: the empty required name stops it; and
  outside the array the current question is \<^verbatim>\<open>undefined\<close>.
\<close>

lemma handleNext_examples:
  "handleNext (questions SURVEY) (initialState (questions SURVEY))
   = Inr ((initialState (questions SURVEY))\<lparr>error := Some (lit ''This question is required.'')\<rparr>)"
  "handleNext (questions SURVEY) (goToQuestion 5 (initialState (questions SURVEY))) = Inl TypeError"
  "handleNext [] (initialState []) = Inl TypeError"
  by code_simp+

text \<open>A whitespace-only answer to a required text question does not pass.\<close>

lemma canProceed_text_examples:
  "\<not> canProceed [(lit ''q_name'', Str (lit ''  ''))] (questions SURVEY ! 0)"
  "canProceed [(lit ''q_name'', Str (lit '' A ''))] (questions SURVEY ! 0)"
  "\<not> canProceed [] (questions SURVEY ! 0)"
  "canProceed [] (questions SURVEY ! 2)"
  by code_simp+

text \<open>Rounding in binary64 is visible: \<open>23 / 40 * 100\<close> is just below \<open>57.5\<close>.\<close>

lemma percent_199_200: "\<lfloor>fl (fl (199 / 200) * 100) + 1 / 2\<rfloor> = 100"
  by code_simp

lemma calcProgress_examples:
  "calcProgress 22 40 = Fin 57"
  "calcProgress 198 200 = Fin 100"
  "calcProgress 0 0 = PosInf"
  "calcProgress (- 1) 0 = NaN"
proof -
  show "calcProgress 22 40 = Fin 57" using percent_23_40 by (simp add: calcProgress_pos)
  show "calcProgress 198 200 = Fin 100" using percent_199_200 by (simp add: calcProgress_pos)
  show "calcProgress 0 0 = PosInf"
    by (simp add: calcProgress_def js_div_def js_mul_const_def Math_round_def)
  show "calcProgress (- 1) 0 = NaN"
    by (simp add: calcProgress_def js_div_def js_mul_const_def Math_round_def)
qed

end
